theory Spec2Isabelle
  imports Complex_Main
begin

section \<open>Arrays\<close>

text \<open>
  The module \<^verbatim>\<open>genspn/distributions.py\<close> computes on JAX arrays of floats and
  integers. Floats are modelled by \<^typ>\<open>real\<close> (exact arithmetic, no rounding, no
  infinities or NaN; only the Beta log-density, which is infinite at the boundary of its
  support, has values of its own), integers by \<^typ>\<open>int\<close>. A one-dimensional array is a list; a
  two-dimensional observation batch of shape \<open>[N, D]\<close> is a list of \<open>N\<close> rows together
  with its column count \<open>D\<close>, which the code reads (through \<^verbatim>\<open>jnp.sum(x, axis=0)\<close>
  and \<^verbatim>\<open>segment_sum\<close>) even when \<open>N = 0\<close>.

  The overloads of \<^verbatim>\<open>sample\<close>, \<^verbatim>\<open>posterior\<close> and \<^verbatim>\<open>logpdf\<close> are
  selected by the type of the distribution and the number and kind of the data
  arguments; each overload is a function of its own name here. Where the module itself
  calls an overloaded name, the selection is part of the model, and a call that no
  overload takes is the dispatcher's error.
\<close>

datatype error = IndexError | ValueError | NotFoundLookupError

record 'a array2 =
  ncols :: nat
  rows :: "'a list list"

definition wf_array2 :: "'a array2 \<Rightarrow> bool" where
  "wf_array2 x = list_all (\<lambda>r. length r = ncols x) (rows x)"

text \<open>Elementwise arithmetic of two arrays of one shape.\<close>

definition vadd :: "real list \<Rightarrow> real list \<Rightarrow> real list" where
  "vadd xs ys = map2 (+) xs ys"

definition vsub :: "real list \<Rightarrow> real list \<Rightarrow> real list" where
  "vsub xs ys = map2 (-) xs ys"

definition vmul :: "real list \<Rightarrow> real list \<Rightarrow> real list" where
  "vmul xs ys = map2 (*) xs ys"

definition vdiv :: "real list \<Rightarrow> real list \<Rightarrow> real list" where
  "vdiv xs ys = map2 (/) xs ys"

text \<open>\<^verbatim>\<open>x ** 2\<close>, elementwise.\<close>

definition vsq :: "real list \<Rightarrow> real list" where
  "vsq xs = map (\<lambda>v. v ^ 2) xs"

text \<open>\<^verbatim>\<open>jnp.sum(x, axis=0)\<close> of a batch of shape \<open>[N, D]\<close>: the \<open>D\<close> column sums.\<close>

definition sum_axis0 :: "real array2 \<Rightarrow> real list" where
  "sum_axis0 x = foldl vadd (replicate (ncols x) 0) (rows x)"

definition sq_array2 :: "real array2 \<Rightarrow> real array2" where
  "sq_array2 x = \<lparr>ncols = ncols x, rows = map vsq (rows x)\<rparr>"

section \<open>Distribution parameter types\<close>

text \<open>
  Each class holds arrays with optional leading batch dimensions. The array type is a
  parameter of the record: \<^typ>\<open>real list\<close> for one cluster's parameters of shape \<open>[D]\<close>,
  \<^typ>\<open>real list list\<close> for the parameters of \<open>K\<close> clusters, of shape \<open>[K, D]\<close>.
\<close>

record 'arr NormalInverseGamma =
  nig_m :: 'arr
  nig_l :: 'arr
  nig_a :: 'arr
  nig_b :: 'arr

record 'arr Dirichlet =
  dir_alpha :: 'arr

section \<open>Conjugate posterior updates\<close>

text \<open>
  \<^verbatim>\<open>posterior(dist: NormalInverseGamma, N, sum_x, sum_x_sq)\<close>: the update from the
  sufficient statistics. \<open>N\<close> is an integer scalar, added to every entry of \<open>l\<close>.
\<close>

definition posterior_nig_stats ::
  "real list NormalInverseGamma \<Rightarrow> int \<Rightarrow> real list \<Rightarrow> real list \<Rightarrow> real list NormalInverseGamma" where
  "posterior_nig_stats prior N sum_x sum_x_sq =
     (let l = map (\<lambda>v. v + of_int N) (nig_l prior);
          m = vdiv (vadd (vmul (nig_l prior) (nig_m prior)) sum_x) l;
          a = map (\<lambda>v. v + of_int N / 2) (nig_a prior);
          b = vadd (nig_b prior)
                (map (\<lambda>v. 0.5 * v)
                  (vsub (vadd sum_x_sq (vmul (nig_l prior) (vsq (nig_m prior)))) (vmul l (vsq m))))
      in \<lparr>nig_m = m, nig_l = l, nig_a = a, nig_b = b\<rparr>)"

text \<open>
  A call \<^verbatim>\<open>posterior(dist, N, sum_x, sum_x_sq)\<close> with a Normal-Inverse-Gamma and two
  one-dimensional float arrays is resolved among the overloads of four parameters. The
  per-cluster overload wants an integer array of labels third, so only the
  statistics-form overload can take the call, and it is annotated
  \<^verbatim>\<open>N: Int[Array, ""]\<close>: an integer JAX array of shape \<open>()\<close>. A Python \<^verbatim>\<open>int\<close> is
  no instance of it and is not converted: then no overload is found.
\<close>

datatype count = PyInt int | IntArray int

definition posterior_nig_dispatch ::
  "real list NormalInverseGamma \<Rightarrow> count \<Rightarrow> real list \<Rightarrow> real list
     \<Rightarrow> error + real list NormalInverseGamma" where
  "posterior_nig_dispatch prior N sum_x sum_x_sq =
     (case N of
        IntArray n \<Rightarrow> Inr (posterior_nig_stats prior n sum_x sum_x_sq)
      | PyInt n \<Rightarrow> Inl NotFoundLookupError)"

text \<open>
  \<^verbatim>\<open>posterior(dist: NormalInverseGamma, x)\<close>: the whole batch as one cluster.
  \<^verbatim>\<open>x.shape[0]\<close> is a Python \<^verbatim>\<open>int\<close>.
\<close>

definition posterior_nig_batch ::
  "real list NormalInverseGamma \<Rightarrow> real array2 \<Rightarrow> error + real list NormalInverseGamma" where
  "posterior_nig_batch prior x =
     (let N = PyInt (int (length (rows x)));
          sum_x = sum_axis0 x;
          sum_x_sq = sum_axis0 (sq_array2 x)
      in posterior_nig_dispatch prior N sum_x sum_x_sq)"

text \<open>
  \<^verbatim>\<open>posterior(dist: Dirichlet, counts)\<close>: integer counts of shape \<open>[D, K]\<close> added to
  \<open>alpha\<close> of the same shape.
\<close>

definition posterior_dirichlet_counts ::
  "real list list Dirichlet \<Rightarrow> int list list \<Rightarrow> real list list Dirichlet" where
  "posterior_dirichlet_counts prior counts =
     \<lparr>dir_alpha = map2 (map2 (\<lambda>al c. al + of_int c)) (dir_alpha prior) counts\<rparr>"

section \<open>Per-cluster aggregation\<close>

text \<open>
  \<^verbatim>\<open>jax.ops.segment_sum(data, segment_ids, num_segments)\<close> is a scatter-add: the
  output starts as \<open>num_segments\<close> zero entries of the shape of one entry of the data,
  and entry \<open>i\<close> of the data is added to output \<open>segment_ids[i]\<close>. An id outside
  \<open>[0, num_segments)\<close> is dropped. The zero entry and the addition of entries are
  parameters, so that the one function serves counts, rows and one-hot matrices.
\<close>

definition segment_sum :: "'a \<Rightarrow> ('a \<Rightarrow> 'a \<Rightarrow> 'a) \<Rightarrow> 'a list \<Rightarrow> int list \<Rightarrow> nat \<Rightarrow> 'a list" where
  "segment_sum zero add data segment_ids num_segments =
     foldl (\<lambda>out (v, s).
              if 0 \<le> s \<and> s < int num_segments then out[nat s := add (out ! nat s) v] else out)
       (replicate num_segments zero) (zip data segment_ids)"

text \<open>
  \<^verbatim>\<open>max_clusters: Optional[int] = None\<close> is passed on as \<^verbatim>\<open>num_segments\<close>. When
  it is \<^verbatim>\<open>None\<close>, \<^verbatim>\<open>segment_sum\<close> takes the largest id plus one (and has no
  largest id to take on an empty id array); a negative number of segments is refused.
\<close>

definition num_segments_of :: "int list \<Rightarrow> int option \<Rightarrow> error + nat" where
  "num_segments_of segment_ids max_clusters =
     (case max_clusters of
        Some k \<Rightarrow> if k < 0 then Inl ValueError else Inr (nat k)
      | None \<Rightarrow>
          if segment_ids = [] then Inl ValueError
          else (let k = Max (set segment_ids) + 1
                in if k < 0 then Inl ValueError else Inr (nat k)))"

text \<open>
  \<^verbatim>\<open>jax.vmap(posterior, in_axes=(None, 0, 0, 0))\<close> applies the statistics-form
  update to each cluster's statistics and stacks the results: every field of the result
  has the clusters as its leading dimension. Each count it passes is an entry of an
  \<^verbatim>\<open>int32\<close> array, which the statistics-form overload takes.
\<close>

definition stack_nig :: "real list NormalInverseGamma list \<Rightarrow> real list list NormalInverseGamma" where
  "stack_nig ps =
     \<lparr>nig_m = map nig_m ps, nig_l = map nig_l ps, nig_a = map nig_a ps, nig_b = map nig_b ps\<rparr>"

text \<open>\<^verbatim>\<open>posterior(dist: NormalInverseGamma, x, c, max_clusters)\<close>.\<close>

definition posterior_nig_clusters ::
  "real list NormalInverseGamma \<Rightarrow> real array2 \<Rightarrow> int list \<Rightarrow> int option
     \<Rightarrow> error + real list list NormalInverseGamma" where
  "posterior_nig_clusters prior x c max_clusters =
     (case num_segments_of c max_clusters of
        Inl e \<Rightarrow> Inl e
      | Inr K \<Rightarrow>
          (let N = segment_sum 0 (+) (replicate (length (rows x)) (1::int)) c K;
               sum_x = segment_sum (replicate (ncols x) 0) vadd (rows x) c K;
               sum_x_sq = segment_sum (replicate (ncols x) 0) vadd (rows (sq_array2 x)) c K
           in Inr (stack_nig
                (map (\<lambda>(n, sx, sxx). posterior_nig_stats prior n sx sxx)
                   (zip N (zip sum_x sum_x_sq))))))"

text \<open>
  \<^verbatim>\<open>jax.nn.one_hot(v, num_classes)\<close> of one integer: a vector of \<open>num_classes\<close>
  entries with a one at position \<open>v\<close>, all zero when \<open>v\<close> is no position.
\<close>

definition one_hot :: "nat \<Rightarrow> int \<Rightarrow> int list" where
  "one_hot num_classes v = map (\<lambda>j. if v = int j then 1 else 0) [0..<num_classes]"

text \<open>\<^verbatim>\<open>a.shape[-1]\<close> of a two-dimensional array given by its rows.\<close>

definition last_dim :: "'a list list \<Rightarrow> nat" where
  "last_dim a = (case a of [] \<Rightarrow> 0 | r # _ \<Rightarrow> length r)"

definition madd :: "int list list \<Rightarrow> int list list \<Rightarrow> int list list" where
  "madd xs ys = map2 (map2 (+)) xs ys"

text \<open>\<^verbatim>\<open>posterior(dist: Dirichlet, x, c, max_clusters)\<close>.\<close>

definition posterior_dirichlet_clusters ::
  "real list list Dirichlet \<Rightarrow> int array2 \<Rightarrow> int list \<Rightarrow> int option
     \<Rightarrow> error + real list list list Dirichlet" where
  "posterior_dirichlet_clusters prior x c max_clusters =
     (case num_segments_of c max_clusters of
        Inl e \<Rightarrow> Inl e
      | Inr K \<Rightarrow>
          (let k = last_dim (dir_alpha prior);
               one_hot_x = map (map (one_hot k)) (rows x);
               counts = segment_sum (replicate (ncols x) (replicate k 0)) madd one_hot_x c K
           in Inr \<lparr>dir_alpha =
                map (\<lambda>cnt. dir_alpha (posterior_dirichlet_counts prior cnt)) counts\<rparr>))"

section \<open>Generative sampling\<close>

record 'arr Normal =
  normal_mu :: 'arr
  normal_std :: 'arr

record 'arr Categorical =
  logprobs :: 'arr

record ('a, 'b) Mixed =
  mixed_normal :: "'a Normal"
  mixed_categorical :: "'b Categorical"

record ('a, 'b) MixedConjugate =
  mc_nig :: "'a NormalInverseGamma"
  mc_dirichlet :: "'b Dirichlet"

text \<open>
  The random source is the library's: a key of some type \<open>'k\<close>, \<^verbatim>\<open>jax.random.split\<close>
  giving \<^verbatim>\<open>keys[0]\<close> and \<^verbatim>\<open>keys[1]\<close>, and the three primitive draws. They
  are parameters of the model. \<^verbatim>\<open>loggamma(key, a)\<close> and
  \<^verbatim>\<open>normal(key, shape)\<close> return an array of the shape asked for: the parameter gives
  entry \<open>i\<close> of it.
\<close>

record 'k random =
  rnd_split :: "'k \<Rightarrow> 'k \<times> 'k"
  rnd_loggamma :: "'k \<Rightarrow> real list \<Rightarrow> nat \<Rightarrow> real"
  rnd_normal :: "'k \<Rightarrow> nat \<Rightarrow> nat \<Rightarrow> real"
  rnd_dirichlet :: "'k \<Rightarrow> real list list \<Rightarrow> real list list"

text \<open>
  Each sampler returns, next to its value, the primitive draws it made in call order,
  each with the key it was given.
\<close>

datatype 'k draw = LogGammaDraw 'k | NormalDraw 'k | DirichletDraw 'k

text \<open>\<^verbatim>\<open>sample(key, dist: Dirichlet)\<close>.\<close>

definition sample_dirichlet ::
  "'k random \<Rightarrow> 'k \<Rightarrow> real list list Dirichlet \<Rightarrow> real list list Categorical \<times> 'k draw list" where
  "sample_dirichlet R key prior =
     (let probs = rnd_dirichlet R key (dir_alpha prior)
      in (\<lparr>logprobs = map (map ln) probs\<rparr>, [DirichletDraw key]))"

text \<open>\<^verbatim>\<open>sample(key, dist: NormalInverseGamma)\<close>.\<close>

definition sample_nig ::
  "'k random \<Rightarrow> 'k \<Rightarrow> real list NormalInverseGamma \<Rightarrow> real list Normal \<times> 'k draw list" where
  "sample_nig R key prior =
     (let keys = rnd_split R key;
          log_lambda = vsub (map (rnd_loggamma R key (nig_a prior)) [0..<length (nig_a prior)])
                         (map ln (nig_b prior));
          log_sigma = vsub (map (\<lambda>v. - ln v) (nig_l prior)) log_lambda;
          std = map (\<lambda>v. exp (v / 2)) log_sigma;
          mu = vadd (nig_m prior)
                 (vmul (map (rnd_normal R (snd keys) (length (nig_m prior)))
                          [0..<length (nig_m prior)]) std)
      in (\<lparr>normal_mu = mu, normal_std = map (\<lambda>v. exp (- v / 2)) log_lambda\<rparr>,
          [LogGammaDraw key, NormalDraw (snd keys)]))"

text \<open>\<^verbatim>\<open>sample(key, dist: MixedConjugate)\<close>.\<close>

definition sample_mixed ::
  "'k random \<Rightarrow> 'k \<Rightarrow> (real list, real list list) MixedConjugate
     \<Rightarrow> (real list, real list list) Mixed \<times> 'k draw list" where
  "sample_mixed R key prior =
     (let keys = rnd_split R key;
          (normal, draws_n) = sample_nig R (fst keys) (mc_nig prior);
          (categorical, draws_c) = sample_dirichlet R (snd keys) (mc_dirichlet prior)
      in (\<lparr>mixed_normal = normal, mixed_categorical = categorical\<rparr>, draws_n @ draws_c))"

section \<open>Indexing\<close>

text \<open>
  Indexing a JAX array with an integer array: a negative index counts from the end, and
  an index that is still out of bounds is clamped to the nearest valid position; no
  error is raised for it. An axis of size 0 has no position to clamp to.
\<close>

definition jnp_index :: "nat \<Rightarrow> int \<Rightarrow> nat" where
  "jnp_index n i =
     (let j = (if i < 0 then i + int n else i) in nat (max 0 (min (int n - 1) j)))"

definition jnp_getitem :: "'a list \<Rightarrow> int \<Rightarrow> error + 'a" where
  "jnp_getitem xs key = (if xs = [] then Inl IndexError else Inr (xs ! jnp_index (length xs) key))"

text \<open>The \<^verbatim>\<open>__getitem__\<close> methods.\<close>

definition Dirichlet_getitem :: "'a list Dirichlet \<Rightarrow> int \<Rightarrow> error + 'a Dirichlet" where
  "Dirichlet_getitem self key =
     (case jnp_getitem (dir_alpha self) key of
        Inl e \<Rightarrow> Inl e
      | Inr al \<Rightarrow> Inr \<lparr>dir_alpha = al\<rparr>)"

definition Normal_getitem :: "'a list Normal \<Rightarrow> int \<Rightarrow> error + 'a Normal" where
  "Normal_getitem self key =
     (case jnp_getitem (normal_mu self) key of
        Inl e \<Rightarrow> Inl e
      | Inr mu \<Rightarrow>
          (case jnp_getitem (normal_std self) key of
             Inl e \<Rightarrow> Inl e
           | Inr std \<Rightarrow> Inr \<lparr>normal_mu = mu, normal_std = std\<rparr>))"

definition Categorical_getitem :: "'a list Categorical \<Rightarrow> int \<Rightarrow> error + 'a Categorical" where
  "Categorical_getitem self key =
     (case jnp_getitem (logprobs self) 0 of
        Inl e \<Rightarrow> Inl e
      | Inr lp \<Rightarrow> Inr \<lparr>logprobs = lp\<rparr>)"

definition Mixed_getitem :: "('a list, 'b list) Mixed \<Rightarrow> int \<Rightarrow> error + ('a, 'b) Mixed" where
  "Mixed_getitem self key =
     (case Normal_getitem (mixed_normal self) key of
        Inl e \<Rightarrow> Inl e
      | Inr n \<Rightarrow>
          (case Categorical_getitem (mixed_categorical self) key of
             Inl e \<Rightarrow> Inl e
           | Inr c \<Rightarrow> Inr \<lparr>mixed_normal = n, mixed_categorical = c\<rparr>))"

section \<open>Log-densities\<close>

text \<open>\<^verbatim>\<open>logpdf(dist: Normal, x)\<close>.\<close>

definition logpdf_normal :: "real list Normal \<Rightarrow> real list \<Rightarrow> real" where
  "logpdf_normal d x =
     sum_list (vsub (map (\<lambda>s. - 0.5 * ln (2 * pi) - ln s) (normal_std d))
                 (map (\<lambda>v. 0.5 * v ^ 2) (vdiv (vsub x (normal_mu d)) (normal_std d))))"

text \<open>
  \<^verbatim>\<open>logpdf(dist: Categorical, x)\<close>: \<^verbatim>\<open>logprobs[arange(n), x]\<close> gathers entry
  \<open>(i, x\<^sub>i)\<close> for each \<open>i < n\<close>, both indices under the indexing rule above.
\<close>

definition logpdf_categorical :: "real list list Categorical \<Rightarrow> int list \<Rightarrow> error + real" where
  "logpdf_categorical d x =
     (let n = length x; D = length (logprobs d); K = last_dim (logprobs d)
      in if x \<noteq> [] \<and> (D = 0 \<or> K = 0) then Inl IndexError
         else Inr (sum_list
                (map (\<lambda>(i, xi). logprobs d ! jnp_index D (int i) ! jnp_index K xi)
                   (zip [0..<n] x))))"

text \<open>\<^verbatim>\<open>logpdf(dist: Mixed, x)\<close>, \<open>x\<close> a pair.\<close>

definition logpdf_mixed ::
  "(real list, real list list) Mixed \<Rightarrow> real list \<times> int list \<Rightarrow> error + real" where
  "logpdf_mixed d x =
     (case logpdf_categorical (mixed_categorical d) (snd x) of
        Inl e \<Rightarrow> Inl e
      | Inr lc \<Rightarrow> Inr (logpdf_normal (mixed_normal d) (fst x) + lc))"

text \<open>
  \<^verbatim>\<open>logpdf(dist: F, x: Datapoint, c)\<close> on a batched container
  \<^verbatim>\<open>F = Categorical | Normal | Mixed\<close>: index, then dispatch on the indexed
  distribution and the data point; no overload takes a mismatched pair.
\<close>

datatype F =
    FCategorical "real list list list Categorical"
  | FNormal "real list list Normal"
  | FMixed "(real list list, real list list list) Mixed"

datatype Datapoint = DFloat "real list" | DInt "int list" | DTuple "real list" "int list"

definition logpdf_F :: "F \<Rightarrow> Datapoint \<Rightarrow> int \<Rightarrow> error + real" where
  "logpdf_F d x c =
     (case d of
        FCategorical cat \<Rightarrow>
          (case Categorical_getitem cat c of
             Inl e \<Rightarrow> Inl e
           | Inr cat' \<Rightarrow>
               (case x of DInt xi \<Rightarrow> logpdf_categorical cat' xi | _ \<Rightarrow> Inl NotFoundLookupError))
      | FNormal nrm \<Rightarrow>
          (case Normal_getitem nrm c of
             Inl e \<Rightarrow> Inl e
           | Inr nrm' \<Rightarrow>
               (case x of DFloat xf \<Rightarrow> Inr (logpdf_normal nrm' xf) | _ \<Rightarrow> Inl NotFoundLookupError))
      | FMixed mx \<Rightarrow>
          (case Mixed_getitem mx c of
             Inl e \<Rightarrow> Inl e
           | Inr mx' \<Rightarrow>
               (case x of DTuple xf xi \<Rightarrow> logpdf_mixed mx' (xf, xi)
                | _ \<Rightarrow> Inl NotFoundLookupError)))"

text \<open>
  The value of a log-density is a float, which may be infinite or not a number: the Beta
  density vanishes or diverges at the ends of its support. Such values are kept apart
  from the finite ones, with the arithmetic of floats on them.
\<close>

datatype xreal = Finite real | PosInf | NegInf | NaN

fun xadd :: "xreal \<Rightarrow> xreal \<Rightarrow> xreal" where
  "xadd (Finite a) (Finite b) = Finite (a + b)"
| "xadd NaN _ = NaN"
| "xadd _ NaN = NaN"
| "xadd PosInf NegInf = NaN"
| "xadd NegInf PosInf = NaN"
| "xadd PosInf _ = PosInf"
| "xadd _ PosInf = PosInf"
| "xadd NegInf _ = NegInf"
| "xadd _ NegInf = NegInf"

text \<open>The product of a finite factor and a value.\<close>

fun xscale :: "real \<Rightarrow> xreal \<Rightarrow> xreal" where
  "xscale p (Finite v) = Finite (p * v)"
| "xscale p PosInf = (if 0 < p then PosInf else if p < 0 then NegInf else NaN)"
| "xscale p NegInf = (if 0 < p then NegInf else if p < 0 then PosInf else NaN)"
| "xscale p NaN = NaN"

definition xlog :: "real \<Rightarrow> xreal" where
  "xlog y = (if 0 < y then Finite (ln y) else if y = 0 then NegInf else NaN)"

text \<open>\<^verbatim>\<open>jnp.sum\<close> of a one-dimensional array of such values.\<close>

definition xsum :: "xreal list \<Rightarrow> xreal" where
  "xsum vs = foldr xadd vs (Finite 0)"

text \<open>
  \<^verbatim>\<open>jax.scipy.stats.beta.logpdf(x, a, b)\<close> is the library's. It is modelled after
  its definition: \<open>- betaln(a, b) + xlogy(a - 1, x) + xlog1py(b - 1, - x)\<close>, where
  \<^verbatim>\<open>xlogy(p, y)\<close> is \<open>p log y\<close> and \<^verbatim>\<open>xlog1py(p, y)\<close> is \<open>p log (1 + y)\<close>, both
  \<open>0\<close> when \<open>p = 0\<close>; the value is \<open>-\<infinity>\<close> for \<open>x\<close> outside \<open>[0, 1]\<close> and not a number
  for a parameter that is not positive. The logarithm of the Beta function needs the
  Gamma function: it is a parameter \<open>lbeta\<close>, except where the Beta function is
  elementary, \<open>B(1, b) = 1 / b\<close> and \<open>B(a, 1) = 1 / a\<close>.
\<close>

definition xlogy :: "real \<Rightarrow> real \<Rightarrow> xreal" where
  "xlogy p y = (if p = 0 then Finite 0 else xscale p (xlog y))"

definition xlog1py :: "real \<Rightarrow> real \<Rightarrow> xreal" where
  "xlog1py p y = (if p = 0 then Finite 0 else xscale p (xlog (1 + y)))"

definition betaln :: "(real \<Rightarrow> real \<Rightarrow> xreal) \<Rightarrow> real \<Rightarrow> real \<Rightarrow> xreal" where
  "betaln lbeta a b =
     (if a = 1 then Finite (- ln b) else if b = 1 then Finite (- ln a) else lbeta a b)"

definition beta_logpdf :: "(real \<Rightarrow> real \<Rightarrow> xreal) \<Rightarrow> real \<Rightarrow> real \<Rightarrow> real \<Rightarrow> xreal" where
  "beta_logpdf lbeta x a b =
     (if a \<le> 0 \<or> b \<le> 0 then NaN
      else if x < 0 \<or> 1 < x then NegInf
      else xadd (xscale (- 1) (betaln lbeta a b))
             (xadd (xlogy (a - 1) x) (xlog1py (b - 1) (- x))))"

text \<open>
  \<^verbatim>\<open>logpdf(dist: GEM, pi, K)\<close>. Inside the \<^verbatim>\<open>vmap\<close>, \<^verbatim>\<open>pi[i-1]\<close> at
  \<open>i = 0\<close> reads the last weight; the value computed from it is then overwritten by
  \<^verbatim>\<open>pi[0]\<close>, which an empty \<open>pi\<close> does not have. \<^verbatim>\<open>logprobs[:K]\<close> is Python's
  slice, also for a negative \<open>K\<close>.
\<close>

record GEM =
  gem_alpha :: real
  gem_d :: real

definition py_slice_to :: "int \<Rightarrow> 'a list \<Rightarrow> 'a list" where
  "py_slice_to K xs = (if 0 \<le> K then take (nat K) xs else take (nat (int (length xs) + K)) xs)"

definition logpdf_gem ::
  "(real \<Rightarrow> real \<Rightarrow> xreal) \<Rightarrow> GEM \<Rightarrow> real list \<Rightarrow> int \<Rightarrow> error + xreal" where
  "logpdf_gem lbeta g pis K =
     (let n = length pis;
          betas = map (\<lambda>i. 1 - pis ! jnp_index n (int i) / pis ! jnp_index n (int i - 1)) [0..<n]
      in if pis = [] then Inl IndexError
         else (let betas = betas[0 := pis ! 0];
                   logprobs = map2 (\<lambda>b i. beta_logpdf lbeta b (1 - gem_d g)
                                       (gem_alpha g + (1 + real i) * gem_d g)) betas [0..<n]
               in Inr (xsum (py_slice_to K logprobs))))"

section \<open>Statements of the per-cluster contract\<close>

text \<open>
  The observations of cluster \<open>k\<close>: the rows of the batch whose label is \<open>k\<close>, in
  their order.
\<close>

definition cluster_rows :: "'a array2 \<Rightarrow> int list \<Rightarrow> nat \<Rightarrow> 'a array2" where
  "cluster_rows x c k =
     \<lparr>ncols = ncols x, rows = map fst (filter (\<lambda>(r, s). s = int k) (zip (rows x) c))\<rparr>"

text \<open>
  The category counts of a batch of discrete observations, computed directly: entry
  \<open>(d, j)\<close> is the number of observations whose feature \<open>d\<close> has category \<open>j\<close>.
\<close>

definition category_counts :: "nat \<Rightarrow> int array2 \<Rightarrow> int list list" where
  "category_counts k x =
     map (\<lambda>d. map (\<lambda>j. int (length (filter (\<lambda>r. r ! d = int j) (rows x)))) [0..<k])
       [0..<ncols x]"

text \<open>Entry \<open>k\<close> of a batched Normal-Inverse-Gamma.\<close>

definition nig_at :: "real list list NormalInverseGamma \<Rightarrow> nat \<Rightarrow> real list NormalInverseGamma" where
  "nig_at p k = \<lparr>nig_m = nig_m p ! k, nig_l = nig_l p ! k, nig_a = nig_a p ! k, nig_b = nig_b p ! k\<rparr>"

section \<open>Shapes\<close>

definition nig_shape :: "nat \<Rightarrow> real list NormalInverseGamma \<Rightarrow> bool" where
  "nig_shape D prior \<longleftrightarrow>
     length (nig_m prior) = D \<and> length (nig_l prior) = D \<and>
     length (nig_a prior) = D \<and> length (nig_b prior) = D"

section \<open>Elementwise arithmetic\<close>

lemma length_vadd [simp]: "length (vadd xs ys) = min (length xs) (length ys)"
  by (simp add: vadd_def)

lemma length_vsub [simp]: "length (vsub xs ys) = min (length xs) (length ys)"
  by (simp add: vsub_def)

lemma length_vmul [simp]: "length (vmul xs ys) = min (length xs) (length ys)"
  by (simp add: vmul_def)

lemma length_vdiv [simp]: "length (vdiv xs ys) = min (length xs) (length ys)"
  by (simp add: vdiv_def)

lemma length_vsq [simp]: "length (vsq xs) = length xs"
  by (simp add: vsq_def)

lemma nth_vadd [simp]:
  "i < length xs \<Longrightarrow> i < length ys \<Longrightarrow> vadd xs ys ! i = xs ! i + ys ! i"
  by (simp add: vadd_def)

lemma nth_vsub [simp]:
  "i < length xs \<Longrightarrow> i < length ys \<Longrightarrow> vsub xs ys ! i = xs ! i - ys ! i"
  by (simp add: vsub_def)

lemma nth_vmul [simp]:
  "i < length xs \<Longrightarrow> i < length ys \<Longrightarrow> vmul xs ys ! i = xs ! i * ys ! i"
  by (simp add: vmul_def)

lemma nth_vdiv [simp]:
  "i < length xs \<Longrightarrow> i < length ys \<Longrightarrow> vdiv xs ys ! i = xs ! i / ys ! i"
  by (simp add: vdiv_def)

lemma nth_vsq [simp]: "i < length xs \<Longrightarrow> vsq xs ! i = (xs ! i) ^ 2"
  by (simp add: vsq_def)

text \<open>The fields of the statistics-form update, entry by entry.\<close>

lemma posterior_nig_stats_shape:
  assumes "nig_shape D prior" "length sum_x = D" "length sum_x_sq = D"
  shows "nig_shape D (posterior_nig_stats prior N sum_x sum_x_sq)"
  using assms by (simp add: nig_shape_def posterior_nig_stats_def Let_def)

lemma posterior_nig_stats_l:
  assumes "nig_shape D prior" "j < D"
  shows "nig_l (posterior_nig_stats prior N sum_x sum_x_sq) ! j = nig_l prior ! j + of_int N"
  using assms by (simp add: nig_shape_def posterior_nig_stats_def Let_def)

lemma posterior_nig_stats_a:
  assumes "nig_shape D prior" "j < D"
  shows "nig_a (posterior_nig_stats prior N sum_x sum_x_sq) ! j = nig_a prior ! j + of_int N / 2"
  using assms by (simp add: nig_shape_def posterior_nig_stats_def Let_def)

lemma posterior_nig_stats_m:
  assumes "nig_shape D prior" "length sum_x = D" "j < D"
  shows "nig_m (posterior_nig_stats prior N sum_x sum_x_sq) ! j =
           (nig_l prior ! j * nig_m prior ! j + sum_x ! j) / (nig_l prior ! j + of_int N)"
  using assms by (simp add: nig_shape_def posterior_nig_stats_def Let_def)

lemma posterior_nig_stats_b:
  assumes "nig_shape D prior" "length sum_x = D" "length sum_x_sq = D" "j < D"
  shows "nig_b (posterior_nig_stats prior N sum_x sum_x_sq) ! j =
           nig_b prior ! j + 0.5 * (sum_x_sq ! j + nig_l prior ! j * (nig_m prior ! j) ^ 2
             - (nig_l prior ! j + of_int N)
               * ((nig_l prior ! j * nig_m prior ! j + sum_x ! j) / (nig_l prior ! j + of_int N)) ^ 2)"
  using assms by (simp add: nig_shape_def posterior_nig_stats_def Let_def)

lemma nig_eqI:
  fixes p q :: "real list NormalInverseGamma"
  assumes "nig_shape D p" "nig_shape D q"
    and "\<And>j. j < D \<Longrightarrow> nig_m p ! j = nig_m q ! j"
    and "\<And>j. j < D \<Longrightarrow> nig_l p ! j = nig_l q ! j"
    and "\<And>j. j < D \<Longrightarrow> nig_a p ! j = nig_a q ! j"
    and "\<And>j. j < D \<Longrightarrow> nig_b p ! j = nig_b q ! j"
  shows "p = q"
proof -
  have "nig_m p = nig_m q" "nig_l p = nig_l q" "nig_a p = nig_a q" "nig_b p = nig_b q"
    using assms by (auto simp: nig_shape_def intro: nth_equalityI)
  then show ?thesis by simp
qed

section \<open>The update from a raw batch\<close>

lemma foldl_vadd_length:
  "length acc = D \<Longrightarrow> list_all (\<lambda>r. length r = D) rs \<Longrightarrow> length (foldl vadd acc rs) = D"
  by (induction rs arbitrary: acc) simp_all

lemma foldl_vadd_nth:
  "length acc = D \<Longrightarrow> list_all (\<lambda>r. length r = D) rs \<Longrightarrow> j < D \<Longrightarrow>
   foldl vadd acc rs ! j = acc ! j + (\<Sum>r\<leftarrow>rs. r ! j)"
  by (induction rs arbitrary: acc) (simp_all add: algebra_simps)

lemma sum_axis0_length: "wf_array2 x \<Longrightarrow> length (sum_axis0 x) = ncols x"
  by (simp add: sum_axis0_def wf_array2_def foldl_vadd_length)

lemma sum_axis0_nth:
  "wf_array2 x \<Longrightarrow> j < ncols x \<Longrightarrow> sum_axis0 x ! j = (\<Sum>r\<leftarrow>rows x. r ! j)"
  by (simp add: sum_axis0_def wf_array2_def foldl_vadd_nth)

lemma wf_sq_array2: "wf_array2 x \<Longrightarrow> wf_array2 (sq_array2 x)"
  by (simp add: wf_array2_def sq_array2_def list_all_iff)

lemma ncols_sq_array2 [simp]: "ncols (sq_array2 x) = ncols x"
  by (simp add: sq_array2_def)

lemma sum_axis0_sq_nth:
  assumes "wf_array2 x" "j < ncols x"
  shows "sum_axis0 (sq_array2 x) ! j = (\<Sum>r\<leftarrow>rows x. (r ! j) ^ 2)"
proof -
  have "sum_axis0 (sq_array2 x) ! j = (\<Sum>r\<leftarrow>rows (sq_array2 x). r ! j)"
    using assms by (simp add: sum_axis0_nth wf_sq_array2)
  also have "\<dots> = (\<Sum>r\<leftarrow>rows x. vsq r ! j)"
    by (simp add: sq_array2_def comp_def)
  also have "\<dots> = (\<Sum>r\<leftarrow>rows x. (r ! j) ^ 2)"
    using assms by (intro arg_cong[where f = sum_list] map_cong refl) (simp add: wf_array2_def list_all_iff)
  finally show ?thesis .
qed

text \<open>
  The statistics-form update at the statistics of a batch of shape \<open>[N, D]\<close>, entry by
  entry: \<open>l' = l + N\<close>, \<open>m' = (l m + \<Sigma>x) / l'\<close>, \<open>a' = a + N / 2\<close>,
  \<open>b' = b + (\<Sigma>x\<^sup>2 + l m\<^sup>2 - l' m'\<^sup>2) / 2\<close>.
\<close>

lemma posterior_nig_stats_of_batch:
  assumes "nig_shape D prior" "wf_array2 x" "ncols x = D"
    and "post = posterior_nig_stats prior (int (length (rows x))) (sum_axis0 x)
                  (sum_axis0 (sq_array2 x))"
  shows "nig_shape D post
       \<and> (\<forall>j<D.
            nig_l post ! j = nig_l prior ! j + real (length (rows x))
          \<and> nig_m post ! j =
              (nig_l prior ! j * nig_m prior ! j + (\<Sum>r\<leftarrow>rows x. r ! j))
                / (nig_l prior ! j + real (length (rows x)))
          \<and> nig_a post ! j = nig_a prior ! j + real (length (rows x)) / 2
          \<and> nig_b post ! j =
              nig_b prior ! j + 1 / 2 * ((\<Sum>r\<leftarrow>rows x. (r ! j) ^ 2)
                + nig_l prior ! j * (nig_m prior ! j) ^ 2
                - nig_l post ! j * (nig_m post ! j) ^ 2))"
proof -
  let ?N = "int (length (rows x))"
  let ?post = "posterior_nig_stats prior ?N (sum_axis0 x) (sum_axis0 (sq_array2 x))"
  have len: "length (sum_axis0 x) = D" "length (sum_axis0 (sq_array2 x)) = D"
    using assms by (simp_all add: sum_axis0_length wf_sq_array2)
  have shape: "nig_shape D ?post"
    using assms(1) len by (rule posterior_nig_stats_shape)
  have fields: "nig_l ?post ! j = nig_l prior ! j + real (length (rows x))
          \<and> nig_m ?post ! j =
              (nig_l prior ! j * nig_m prior ! j + (\<Sum>r\<leftarrow>rows x. r ! j))
                / (nig_l prior ! j + real (length (rows x)))
          \<and> nig_a ?post ! j = nig_a prior ! j + real (length (rows x)) / 2
          \<and> nig_b ?post ! j =
              nig_b prior ! j + 1 / 2 * ((\<Sum>r\<leftarrow>rows x. (r ! j) ^ 2)
                + nig_l prior ! j * (nig_m prior ! j) ^ 2
                - nig_l ?post ! j * (nig_m ?post ! j) ^ 2)" if "j < D" for j
  proof -
    have sx: "sum_axis0 x ! j = (\<Sum>r\<leftarrow>rows x. r ! j)"
      using assms that by (simp add: sum_axis0_nth)
    have sxx: "sum_axis0 (sq_array2 x) ! j = (\<Sum>r\<leftarrow>rows x. (r ! j) ^ 2)"
      using assms that by (simp add: sum_axis0_sq_nth)
    have l: "nig_l ?post ! j = nig_l prior ! j + real (length (rows x))"
      using posterior_nig_stats_l[OF assms(1) that, of ?N] by simp
    have m: "nig_m ?post ! j = (nig_l prior ! j * nig_m prior ! j + (\<Sum>r\<leftarrow>rows x. r ! j))
                / (nig_l prior ! j + real (length (rows x)))"
      using posterior_nig_stats_m[OF assms(1) len(1) that, of ?N] sx by simp
    have a: "nig_a ?post ! j = nig_a prior ! j + real (length (rows x)) / 2"
      using posterior_nig_stats_a[OF assms(1) that, of ?N] by simp
    have b: "nig_b ?post ! j = nig_b prior ! j + 1 / 2 * ((\<Sum>r\<leftarrow>rows x. (r ! j) ^ 2)
                + nig_l prior ! j * (nig_m prior ! j) ^ 2
                - nig_l ?post ! j * (nig_m ?post ! j) ^ 2)"
      using posterior_nig_stats_b[OF assms(1) len that, of ?N] sx sxx l m by simp
    show ?thesis using l m a b by blast
  qed
  show ?thesis unfolding assms(4) using shape fields by blast
qed

text \<open>
  Claim C1. The raw-batch overload computes \<open>N\<close>, \<open>\<Sigma>x\<close> and \<open>\<Sigma>x\<^sup>2\<close> and calls
  \<^verbatim>\<open>posterior(dist, N, sum_x, sum_x_sq)\<close> with \<open>N\<close> the Python \<^verbatim>\<open>int\<close>
  \<^verbatim>\<open>x.shape[0]\<close>. No overload takes that call, so on every prior and every batch the
  raw-batch path ends in the dispatcher's error and returns no Normal-Inverse-Gamma. In
  the end-to-end scenario, prior \<open>(m, l, a, b) = (0, 1, 1, 1)\<close> and batch \<open>[1, 3]\<close>, the
  same statistics with the count as an integer array give \<open>(4/3, 3, 2, 10/3)\<close>.
\<close>

theorem posterior_nig_batch_not_dispatched:
  "posterior_nig_batch prior x = Inl NotFoundLookupError
   \<and> posterior_nig_batch \<lparr>nig_m = [0], nig_l = [1], nig_a = [1], nig_b = [1]\<rparr>
         \<lparr>ncols = 1, rows = [[1], [3]]\<rparr> = Inl NotFoundLookupError
   \<and> sum_axis0 \<lparr>ncols = 1, rows = [[1], [3]]\<rparr> = [4]
   \<and> sum_axis0 (sq_array2 \<lparr>ncols = 1, rows = [[1], [3]]\<rparr>) = [10]
   \<and> posterior_nig_dispatch \<lparr>nig_m = [0], nig_l = [1], nig_a = [1], nig_b = [1]\<rparr>
         (IntArray 2) [4] [10]
       = Inr \<lparr>nig_m = [4 / 3], nig_l = [3], nig_a = [2], nig_b = [10 / 3]\<rparr>"
  by (simp add: posterior_nig_batch_def posterior_nig_dispatch_def posterior_nig_stats_def
        sum_axis0_def sq_array2_def vadd_def vsub_def vmul_def vdiv_def vsq_def
        power2_eq_square)

section \<open>Algebra of the statistics-form update\<close>

text \<open>The zero statistic changes no field when the divisor \<open>l + 0\<close> is not zero.\<close>

lemma posterior_nig_stats_zero:
  assumes "nig_shape D prior" "\<forall>v\<in>set (nig_l prior). 0 < v"
  shows "posterior_nig_stats prior 0 (replicate D 0) (replicate D 0) = prior"
proof (rule nig_eqI[of D])
  show "nig_shape D (posterior_nig_stats prior 0 (replicate D 0) (replicate D 0))"
    using assms(1) by (simp add: posterior_nig_stats_shape)
  show "nig_shape D prior" by fact
next
  fix j assume j: "j < D"
  then have "nig_l prior ! j \<in> set (nig_l prior)"
    using assms(1) by (simp add: nig_shape_def)
  then have pos: "nig_l prior ! j \<noteq> 0"
    using assms(2) by fastforce
  show "nig_m (posterior_nig_stats prior 0 (replicate D 0) (replicate D 0)) ! j = nig_m prior ! j"
    using pos j by (simp add: posterior_nig_stats_m[OF assms(1)])
  show "nig_l (posterior_nig_stats prior 0 (replicate D 0) (replicate D 0)) ! j = nig_l prior ! j"
    using j by (simp add: posterior_nig_stats_l[OF assms(1)])
  show "nig_a (posterior_nig_stats prior 0 (replicate D 0) (replicate D 0)) ! j = nig_a prior ! j"
    using j by (simp add: posterior_nig_stats_a[OF assms(1)])
  show "nig_b (posterior_nig_stats prior 0 (replicate D 0) (replicate D 0)) ! j = nig_b prior ! j"
    using pos j by (simp add: posterior_nig_stats_b[OF assms(1)] power2_eq_square)
qed

text \<open>
  Claim C6. Updating with the statistics \<open>(N1, \<Sigma>x1, \<Sigma>x\<^sup>21)\<close> and then with
  \<open>(N2, \<Sigma>x2, \<Sigma>x\<^sup>22)\<close> gives the same Normal-Inverse-Gamma as updating once with
  their sum, for a prior with \<open>l > 0\<close> and a count \<open>N1 \<ge> 0\<close>.
\<close>

theorem posterior_nig_stats_additive:
  assumes shape: "nig_shape D prior"
    and len: "length sx1 = D" "length sxx1 = D" "length sx2 = D" "length sxx2 = D"
    and pos: "\<forall>v\<in>set (nig_l prior). 0 < v" and N1: "0 \<le> N1"
  shows "posterior_nig_stats (posterior_nig_stats prior N1 sx1 sxx1) N2 sx2 sxx2 =
         posterior_nig_stats prior (N1 + N2) (vadd sx1 sx2) (vadd sxx1 sxx2)"
proof (rule nig_eqI[of D])
  let ?p1 = "posterior_nig_stats prior N1 sx1 sxx1"
  have s1: "nig_shape D ?p1"
    using shape len by (simp add: posterior_nig_stats_shape)
  show "nig_shape D (posterior_nig_stats ?p1 N2 sx2 sxx2)"
    using s1 len by (simp add: posterior_nig_stats_shape)
  show "nig_shape D (posterior_nig_stats prior (N1 + N2) (vadd sx1 sx2) (vadd sxx1 sxx2))"
    using shape len by (simp add: posterior_nig_stats_shape)
  fix j assume j: "j < D"
  define L M where "L = nig_l prior ! j" and "M = nig_m prior ! j"
  have "L \<in> set (nig_l prior)"
    using shape j by (simp add: nig_shape_def L_def)
  then have "0 < L" using pos by blast
  then have nz: "L + real_of_int N1 \<noteq> 0" using N1 by simp
  have l1: "nig_l ?p1 ! j = L + of_int N1"
    using j by (simp add: posterior_nig_stats_l[OF shape] L_def)
  have m1: "nig_m ?p1 ! j = (L * M + sx1 ! j) / (L + of_int N1)"
    using j len by (simp add: posterior_nig_stats_m[OF shape] L_def M_def)
  have prod: "nig_l ?p1 ! j * nig_m ?p1 ! j = L * M + sx1 ! j"
    using nz by (simp add: l1 m1)
  show l: "nig_l (posterior_nig_stats ?p1 N2 sx2 sxx2) ! j =
        nig_l (posterior_nig_stats prior (N1 + N2) (vadd sx1 sx2) (vadd sxx1 sxx2)) ! j"
    using j by (simp add: posterior_nig_stats_l[OF s1] posterior_nig_stats_l[OF shape] l1 L_def)
  show "nig_a (posterior_nig_stats ?p1 N2 sx2 sxx2) ! j =
        nig_a (posterior_nig_stats prior (N1 + N2) (vadd sx1 sx2) (vadd sxx1 sxx2)) ! j"
    using j by (simp add: posterior_nig_stats_a[OF s1] posterior_nig_stats_a[OF shape] add_divide_distrib)
  have m2: "nig_m (posterior_nig_stats ?p1 N2 sx2 sxx2) ! j =
        (L * M + sx1 ! j + sx2 ! j) / (L + of_int N1 + of_int N2)"
    using posterior_nig_stats_m[OF s1 len(3) j, of N2 sxx2] by (simp only: prod) (simp only: l1)
  have m2': "nig_m (posterior_nig_stats prior (N1 + N2) (vadd sx1 sx2) (vadd sxx1 sxx2)) ! j =
        (L * M + sx1 ! j + sx2 ! j) / (L + of_int N1 + of_int N2)"
    using j len by (simp add: posterior_nig_stats_m[OF shape] L_def M_def algebra_simps)
  show "nig_m (posterior_nig_stats ?p1 N2 sx2 sxx2) ! j =
        nig_m (posterior_nig_stats prior (N1 + N2) (vadd sx1 sx2) (vadd sxx1 sxx2)) ! j"
    by (simp only: m2 m2')
  have b1: "nig_b ?p1 ! j = nig_b prior ! j + 0.5 * (sxx1 ! j + L * M ^ 2
              - (L + of_int N1) * ((L * M + sx1 ! j) / (L + of_int N1)) ^ 2)"
    using j len by (simp add: posterior_nig_stats_b[OF shape] L_def M_def)
  show "nig_b (posterior_nig_stats ?p1 N2 sx2 sxx2) ! j =
        nig_b (posterior_nig_stats prior (N1 + N2) (vadd sx1 sx2) (vadd sxx1 sxx2)) ! j"
  proof -
    define m2 where "m2 = (L * M + sx1 ! j + sx2 ! j) / (L + of_int N1 + of_int N2)"
    have lhs: "nig_b (posterior_nig_stats ?p1 N2 sx2 sxx2) ! j =
        nig_b ?p1 ! j + 0.5 * (sxx2 ! j + nig_l ?p1 ! j * (nig_m ?p1 ! j) ^ 2
          - (L + of_int N1 + of_int N2) * m2 ^ 2)"
      using posterior_nig_stats_b[OF s1 len(3,4) j, of N2]
      by (simp only: prod m2_def) (simp only: l1)
    have rhs: "nig_b (posterior_nig_stats prior (N1 + N2) (vadd sx1 sx2) (vadd sxx1 sxx2)) ! j =
        nig_b prior ! j + 0.5 * (sxx1 ! j + sxx2 ! j + L * M ^ 2
          - (L + of_int N1 + of_int N2) * m2 ^ 2)"
      using j len
      by (simp add: posterior_nig_stats_b[OF shape] L_def M_def m2_def algebra_simps)
    show ?thesis
      unfolding lhs rhs b1 l1 m1 by (simp add: algebra_simps)
  qed
qed

theorem posterior_nig_stats_additive_witness:
  "nig_shape 1 \<lparr>nig_m = [0], nig_l = [1], nig_a = [1], nig_b = [1]\<rparr>
   \<and> posterior_nig_stats
         (posterior_nig_stats \<lparr>nig_m = [0], nig_l = [1], nig_a = [1], nig_b = [1]\<rparr> 1 [1] [1])
         1 [3] [9]
       = posterior_nig_stats \<lparr>nig_m = [0], nig_l = [1], nig_a = [1], nig_b = [1]\<rparr>
           (1 + 1) (vadd [1] [3]) (vadd [1] [9])
   \<and> posterior_nig_stats \<lparr>nig_m = [0], nig_l = [1], nig_a = [1], nig_b = [1]\<rparr>
           (1 + 1) (vadd [1] [3]) (vadd [1] [9])
       = \<lparr>nig_m = [4 / 3], nig_l = [3], nig_a = [2], nig_b = [10 / 3]\<rparr>"
  using posterior_nig_stats_additive
    [of 1 "\<lparr>nig_m = [0], nig_l = [1], nig_a = [1], nig_b = [1]\<rparr>" "[1]" "[1]" "[3]" "[9]" 1 1]
  by (simp add: nig_shape_def posterior_nig_stats_def vadd_def vsub_def vmul_def vdiv_def vsq_def
        power2_eq_square)

section \<open>The Dirichlet update from counts\<close>

text \<open>
  Claim C8. For a Dirichlet prior and counts of its shape, the update returns a
  Dirichlet of that shape with \<open>alpha' = alpha + counts\<close> in every entry; with all
  counts zero it returns the prior.
\<close>

theorem posterior_dirichlet_counts_adds:
  assumes "map length counts = map length (dir_alpha prior)"
  shows "map length (dir_alpha (posterior_dirichlet_counts prior counts)) = map length (dir_alpha prior)
       \<and> (\<forall>i<length (dir_alpha prior). \<forall>j<length (dir_alpha prior ! i).
            dir_alpha (posterior_dirichlet_counts prior counts) ! i ! j =
              dir_alpha prior ! i ! j + of_int (counts ! i ! j))
       \<and> posterior_dirichlet_counts prior (map (map (\<lambda>_. 0)) (dir_alpha prior)) = prior"
proof -
  let ?al = "dir_alpha prior"
  have len: "length counts = length ?al"
    using assms by (metis length_map)
  have row: "length (counts ! i) = length (?al ! i)" if "i < length ?al" for i
    using assms that len by (metis nth_map)
  have 1: "map length (dir_alpha (posterior_dirichlet_counts prior counts)) = map length ?al"
    using len row by (auto simp: posterior_dirichlet_counts_def intro!: nth_equalityI)
  have 2: "dir_alpha (posterior_dirichlet_counts prior counts) ! i ! j =
              ?al ! i ! j + of_int (counts ! i ! j)"
    if "i < length ?al" "j < length (?al ! i)" for i j
    using that len row by (simp add: posterior_dirichlet_counts_def)
  have "map2 (map2 (\<lambda>al c. al + real_of_int c)) ?al (map (map (\<lambda>_. 0)) ?al) = ?al"
    by (auto intro!: nth_equalityI)
  then have 3: "posterior_dirichlet_counts prior (map (map (\<lambda>_. 0)) ?al) = prior"
    by (simp add: posterior_dirichlet_counts_def)
  show ?thesis using 1 2 3 by blast
qed

theorem posterior_dirichlet_counts_adds_witness:
  "map length [[2, 0, 1], [0, 3, 0 :: int]] = map length [[1, 1, 1], [1 / 2, 1 / 2, 2 :: real]]
   \<and> posterior_dirichlet_counts \<lparr>dir_alpha = [[1, 1, 1], [1 / 2, 1 / 2, 2]]\<rparr> [[2, 0, 1], [0, 3, 0]]
       = \<lparr>dir_alpha = [[3, 1, 2], [1 / 2, 7 / 2, 2]]\<rparr>
   \<and> posterior_dirichlet_counts \<lparr>dir_alpha = [[1, 1, 1], [1 / 2, 1 / 2, 2]]\<rparr> [[0, 0, 0], [0, 0, 0]]
       = \<lparr>dir_alpha = [[1, 1, 1], [1 / 2, 1 / 2, 2]]\<rparr>"
  using posterior_dirichlet_counts_adds
    [of "[[2, 0, 1], [0, 3, 0]]" "\<lparr>dir_alpha = [[1, 1, 1], [1 / 2, 1 / 2, 2]]\<rparr>"]
  by (simp add: posterior_dirichlet_counts_def)

section \<open>Keys of the primitive draws\<close>

text \<open>
  Claim C9. The draws of the two samplers and their keys. Sampling a Normal-Inverse-Gamma
  splits its key but gives the unsplit key itself to the log-Gamma draw; only the normal
  draw uses a sub-key, \<^verbatim>\<open>keys[1]\<close>, and \<^verbatim>\<open>keys[0]\<close> is never used. Sampling
  a MixedConjugate gives \<^verbatim>\<open>keys[0]\<close> and \<^verbatim>\<open>keys[1]\<close> to its two component
  samplers, as the claim says of both.
\<close>

theorem sample_draw_keys:
  "snd (sample_nig R key prior) = [LogGammaDraw key, NormalDraw (snd (rnd_split R key))]
   \<and> snd (sample_mixed R key mprior) =
       [LogGammaDraw (fst (rnd_split R key)),
        NormalDraw (snd (rnd_split R (fst (rnd_split R key)))),
        DirichletDraw (snd (rnd_split R key))]"
  by (simp add: sample_nig_def sample_mixed_def sample_dirichlet_def Let_def split_beta)

section \<open>Indexing a batched container\<close>

text \<open>
  Claim C4. \<^verbatim>\<open>Categorical.__getitem__\<close> returns \<^verbatim>\<open>logprobs[0]\<close> whatever the
  key, where the other containers select by the key. With two clusters, index 1 returns
  the parameters of cluster 0, and the log-density asked for cluster 1 is the one of
  cluster 0.
\<close>

theorem Categorical_getitem_ignores_key:
  "Categorical_getitem self key = Categorical_getitem self 0
   \<and> Categorical_getitem \<lparr>logprobs = [[[ln (1 / 2), ln (1 / 2)]], [[ln (1 / 4), ln (3 / 4 :: real)]]]\<rparr> 1
       = Inr \<lparr>logprobs = [[ln (1 / 2), ln (1 / 2)]]\<rparr>
   \<and> logpdf_F (FCategorical \<lparr>logprobs = [[[ln (1 / 2), ln (1 / 2)]], [[ln (1 / 4), ln (3 / 4)]]]\<rparr>)
        (DInt [0]) 1 = Inr (ln (1 / 2))
   \<and> ln (1 / 2 :: real) \<noteq> ln (1 / 4)"
  by (simp add: Categorical_getitem_def jnp_getitem_def jnp_index_def logpdf_F_def
        logpdf_categorical_def last_dim_def)

section \<open>The categorical log-density\<close>

lemma zip_upt_nth: "zip [0..<length x] x = map (\<lambda>i. (i, x ! i)) [0..<length x]"
  by (rule nth_equalityI) simp_all

lemma jnp_index_in_range: "0 \<le> i \<Longrightarrow> i < int n \<Longrightarrow> jnp_index n i = nat i"
  by (simp add: jnp_index_def)

lemma jnp_index_nat: "i < n \<Longrightarrow> jnp_index n (int i) = i"
  by (simp add: jnp_index_def)

lemma jnp_index_less: "0 < n \<Longrightarrow> jnp_index n i < n"
  by (auto simp: jnp_index_def Let_def)

text \<open>
  Claim C7, amended. For log-probabilities of shape \<open>[n_dim, K]\<close> with \<open>n_dim > 0\<close>,
  \<open>K > 0\<close> and \<open>x\<close> of length \<open>n_dim\<close>, the log-density is the sum of
  \<open>logprobs[i, x\<^sub>i]\<close> when every \<open>x\<^sub>i\<close> is in \<open>[0, K)\<close>. An \<open>x\<^sub>i\<close> outside \<open>[0, K)\<close>
  raises nothing: the index is wrapped and clamped into \<open>[0, K)\<close> and a value is
  returned.
\<close>

theorem logpdf_categorical_clamps:
  assumes "logprobs d \<noteq> []" "list_all (\<lambda>r. length r = K) (logprobs d)" "0 < K"
    and "length x = length (logprobs d)"
  shows "logpdf_categorical d x = Inr (\<Sum>i\<leftarrow>[0..<length x]. logprobs d ! i ! jnp_index K (x ! i))
       \<and> (list_all (\<lambda>xi. 0 \<le> xi \<and> xi < int K) x \<longrightarrow>
            logpdf_categorical d x = Inr (\<Sum>i\<leftarrow>[0..<length x]. logprobs d ! i ! nat (x ! i)))"
proof -
  obtain r rs where lp: "logprobs d = r # rs"
    using assms(1) by (cases "logprobs d") auto
  have K: "last_dim (logprobs d) = K"
    using assms(2) by (simp add: last_dim_def lp)
  have "logpdf_categorical d x =
        Inr (sum_list (map (\<lambda>(i, xi). logprobs d ! jnp_index (length (logprobs d)) (int i)
               ! jnp_index K xi) (zip [0..<length x] x)))"
    using assms(1,3) by (simp add: logpdf_categorical_def Let_def K)
  also have "(map (\<lambda>(i, xi). logprobs d ! jnp_index (length (logprobs d)) (int i)
               ! jnp_index K xi) (zip [0..<length x] x))
      = map (\<lambda>i. logprobs d ! i ! jnp_index K (x ! i)) [0..<length x]"
    unfolding zip_upt_nth using assms(4) by (simp add: jnp_index_nat)
  finally have 1: "logpdf_categorical d x =
      Inr (\<Sum>i\<leftarrow>[0..<length x]. logprobs d ! i ! jnp_index K (x ! i))" .
  have 2: "(\<Sum>i\<leftarrow>[0..<length x]. logprobs d ! i ! jnp_index K (x ! i))
         = (\<Sum>i\<leftarrow>[0..<length x]. logprobs d ! i ! nat (x ! i))"
    if "list_all (\<lambda>xi. 0 \<le> xi \<and> xi < int K) x"
  proof -
    have "jnp_index K (x ! i) = nat (x ! i)" if "i < length x" for i
      using that \<open>list_all _ x\<close> by (simp add: list_all_length jnp_index_in_range)
    then show ?thesis
      by (intro arg_cong[where f = sum_list] map_cong refl) simp
  qed
  show ?thesis using 1 2 by simp
qed

theorem logpdf_categorical_clamps_witness:
  "logpdf_categorical \<lparr>logprobs = [[ln (1 / 4), ln (3 / 4)], [ln (1 / 2), ln (1 / 2)]]\<rparr> [1, 0]
     = Inr (ln (3 / 4) + ln (1 / 2))
   \<and> logpdf_categorical \<lparr>logprobs = [[ln (1 / 4), ln (3 / 4)], [ln (1 / 2), ln (1 / 2)]]\<rparr> [-1, 7]
     = Inr (ln (3 / 4) + ln (1 / 2))"
  using logpdf_categorical_clamps
    [of "\<lparr>logprobs = [[ln (1 / 4), ln (3 / 4)], [ln (1 / 2), ln (1 / 2)]]\<rparr>" 2 "[1, 0]"]
    logpdf_categorical_clamps
    [of "\<lparr>logprobs = [[ln (1 / 4), ln (3 / 4)], [ln (1 / 2), ln (1 / 2)]]\<rparr>" 2 "[-1, 7]"]
  by (simp add: jnp_index_def upt_rec[of 0] upt_rec[of 1] numeral_2_eq_2)

text \<open>
  With \<open>K = 2\<close> and \<open>x = [2]\<close> the evaluation returns the entry of the last category.
\<close>

theorem logpdf_categorical_out_of_range_returns:
  "logpdf_categorical \<lparr>logprobs = [[ln (1 / 4), ln (3 / 4)]]\<rparr> [2] = Inr (ln (3 / 4))
   \<and> \<not> (2 :: int) < 2"
  by (simp add: logpdf_categorical_def last_dim_def jnp_index_def)

section \<open>The stick-breaking log-density\<close>

lemma map2_upt_nth:
  "length xs = n \<Longrightarrow> map2 f xs [0..<n] = map (\<lambda>i. f (xs ! i) i) [0..<n]"
  by (rule nth_equalityI) simp_all

text \<open>
  At \<open>x = 1\<close> the Beta log-density with parameters \<open>(1, 1)\<close> is \<open>0\<close>; with parameters
  \<open>(1, 2)\<close> it is \<open>-\<infinity>\<close>.
\<close>

lemma beta_logpdf_uniform_at_one: "beta_logpdf lbeta 1 1 1 = Finite 0"
  by (simp add: beta_logpdf_def betaln_def xlogy_def xlog1py_def)

lemma beta_logpdf_infinite_at_one: "beta_logpdf lbeta 1 1 2 = NegInf"
  by (simp add: beta_logpdf_def betaln_def xlogy_def xlog1py_def xlog_def)

text \<open>
  Claim C5. For a GEM prior with \<open>0 \<le> d < 1\<close> and \<open>alpha > - d\<close>, weights \<open>pi\<close> of
  length \<open>n\<close> with entries in \<open>(0, 1]\<close> and \<open>1 \<le> K \<le> n\<close>, the log-density is the sum
  over \<open>i < K\<close> of the Beta log-density with parameters \<open>(1 - d, alpha + (i + 1) d)\<close> at
  \<open>\<beta>\<^sub>i\<close>, where \<open>\<beta>\<^sub>0 = pi\<^sub>0\<close> and \<open>\<beta>\<^sub>i = 1 - pi\<^sub>i / pi\<^sub>i\<^sub>-\<^sub>1\<close> for \<open>i \<ge> 1\<close>. For
  \<open>alpha = 1\<close>, \<open>d = 0\<close>, \<open>pi = [1]\<close>, \<open>K = 1\<close> it returns, without error, the one Beta
  log-density with parameters \<open>(1, 1)\<close> at \<open>1\<close>, and this value is finite: it is \<open>0\<close>.
\<close>

theorem logpdf_gem_sum:
  assumes "0 \<le> gem_d g" "gem_d g < 1" "- gem_d g < gem_alpha g"
    and "list_all (\<lambda>p. 0 < p \<and> p \<le> 1) pis" "1 \<le> K" "K \<le> int (length pis)"
  shows "logpdf_gem lbeta g pis K =
           Inr (xsum (map (\<lambda>i.
                  beta_logpdf lbeta (if i = 0 then pis ! 0 else 1 - pis ! i / pis ! (i - 1))
                    (1 - gem_d g) (gem_alpha g + (real i + 1) * gem_d g)) [0..<nat K]))
       \<and> logpdf_gem lbeta \<lparr>gem_alpha = 1, gem_d = 0\<rparr> [1] 1 = Inr (beta_logpdf lbeta 1 1 1)
       \<and> logpdf_gem lbeta \<lparr>gem_alpha = 1, gem_d = 0\<rparr> [1] 1 = Inr (Finite 0)"
proof -
  let ?n = "length pis"
  let ?betas = "(map (\<lambda>i. 1 - pis ! jnp_index ?n (int i) / pis ! jnp_index ?n (int i - 1)) [0..<?n])
                  [0 := pis ! 0]"
  let ?summand = "\<lambda>i. beta_logpdf lbeta (if i = 0 then pis ! 0 else 1 - pis ! i / pis ! (i - 1))
                    (1 - gem_d g) (gem_alpha g + (real i + 1) * gem_d g)"
  have ne: "pis \<noteq> []" using assms(5,6) by auto
  have beta: "?betas ! i = (if i = 0 then pis ! 0 else 1 - pis ! i / pis ! (i - 1))"
    if "i < ?n" for i
  proof (cases "i = 0")
    case True
    then show ?thesis using that by simp
  next
    case False
    then have "jnp_index ?n (int i - 1) = i - 1"
      using that by (simp add: jnp_index_def Let_def)
    moreover have "jnp_index ?n (int i) = i"
      using that by (simp add: jnp_index_nat)
    ultimately show ?thesis using that False by simp
  qed
  have "map2 (\<lambda>b i. beta_logpdf lbeta b (1 - gem_d g) (gem_alpha g + (1 + real i) * gem_d g))
          ?betas [0..<?n]
      = map (\<lambda>i. beta_logpdf lbeta (?betas ! i) (1 - gem_d g)
                 (gem_alpha g + (1 + real i) * gem_d g)) [0..<?n]"
    by (rule map2_upt_nth) simp
  also have "\<dots> = map ?summand [0..<?n]"
    by (intro map_cong refl) (simp add: beta add.commute)
  finally have lp: "map2 (\<lambda>b i. beta_logpdf lbeta b (1 - gem_d g)
                            (gem_alpha g + (1 + real i) * gem_d g)) ?betas [0..<?n]
      = map ?summand [0..<?n]" .
  have "py_slice_to K (map ?summand [0..<?n]) = map ?summand [0..<nat K]"
    using assms(5,6) by (simp add: py_slice_to_def take_map)
  then have 1: "logpdf_gem lbeta g pis K = Inr (xsum (map ?summand [0..<nat K]))"
    using ne by (simp add: logpdf_gem_def Let_def lp)
  have "xsum [beta_logpdf lbeta 1 1 1] = beta_logpdf lbeta 1 1 1"
    by (simp add: xsum_def beta_logpdf_uniform_at_one)
  then have 2: "logpdf_gem lbeta \<lparr>gem_alpha = 1, gem_d = 0\<rparr> [1] 1 = Inr (beta_logpdf lbeta 1 1 1)"
    by (simp add: logpdf_gem_def py_slice_to_def)
  show ?thesis using 1 2 by (simp add: beta_logpdf_uniform_at_one)
qed

text \<open>
  A run with \<open>d = 0\<close> and \<open>alpha = 2\<close>, where the Beta density with parameters
  \<open>(1, 2)\<close> is \<open>2 (1 - x)\<close>: at \<open>\<beta>\<^sub>0 = 1/2\<close> and \<open>\<beta>\<^sub>1 = 1/4\<close> the log-densities are
  \<open>ln 2 + ln (1/2)\<close> and \<open>ln 2 + ln (3/4)\<close>.
\<close>

theorem logpdf_gem_sum_witness:
  "logpdf_gem (\<lambda>a b. NaN) \<lparr>gem_alpha = 2, gem_d = 0\<rparr> [1 / 2, 3 / 8, 1 / 8] 2
   = Inr (Finite ((ln 2 + ln (1 / 2)) + ((ln 2 + ln (3 / 4)) + 0)))"
  using logpdf_gem_sum
    [of "\<lparr>gem_alpha = 2, gem_d = 0\<rparr>" "[1 / 2, 3 / 8, 1 / 8]" 2 "\<lambda>a b. NaN"]
  by (simp add: upt_rec[of 0] upt_rec[of 1] numeral_2_eq_2 xsum_def beta_logpdf_def betaln_def
        xlogy_def xlog1py_def xlog_def)

section \<open>Sampling a Normal from a Normal-Inverse-Gamma\<close>

lemma exp_half_neg_ln: "0 < v \<Longrightarrow> exp (- ln v / 2) = 1 / sqrt (v :: real)"
proof -
  assume v: "0 < v"
  have "exp (- ln v / 2) = exp (- ln (sqrt v))"
    using v by (simp add: ln_sqrt)
  also have "\<dots> = 1 / sqrt v"
    using v by (simp add: exp_minus inverse_eq_divide)
  finally show ?thesis .
qed

text \<open>
  Claim C3, amended. For a prior of dimension \<open>D\<close> with \<open>l > 0\<close> and \<open>b > 0\<close>, with
  \<open>log \<lambda> = loggamma(a) - log b\<close> the log-space Gamma draw and
  \<open>log \<sigma> = - log l - log \<lambda>\<close>: the returned \<open>std\<close> is \<open>exp (- log \<lambda> / 2)\<close>, the
  standard deviation of the likelihood, and the returned \<open>mu\<close> is
  \<open>m + exp (log \<sigma> / 2) z\<close> for the standard-normal draw \<open>z\<close>, that is
  \<open>m + (std / sqrt l) z\<close>. The scale \<open>exp (log \<sigma> / 2)\<close> of the mean is not the returned
  \<open>std\<close> unless \<open>l = 1\<close>.
\<close>

theorem sample_nig_fields:
  assumes "nig_shape D prior"
    and "list_all (\<lambda>v. 0 < v) (nig_l prior)" "list_all (\<lambda>v. 0 < v) (nig_b prior)"
  shows "length (normal_mu (fst (sample_nig R key prior))) = D
       \<and> length (normal_std (fst (sample_nig R key prior))) = D
       \<and> (\<forall>j<D.
            normal_std (fst (sample_nig R key prior)) ! j =
              exp (- (rnd_loggamma R key (nig_a prior) j - ln (nig_b prior ! j)) / 2)
          \<and> normal_mu (fst (sample_nig R key prior)) ! j =
              nig_m prior ! j + rnd_normal R (snd (rnd_split R key)) D j
                * exp ((- ln (nig_l prior ! j)
                         - (rnd_loggamma R key (nig_a prior) j - ln (nig_b prior ! j))) / 2)
          \<and> normal_mu (fst (sample_nig R key prior)) ! j =
              nig_m prior ! j + rnd_normal R (snd (rnd_split R key)) D j
                * (normal_std (fst (sample_nig R key prior)) ! j / sqrt (nig_l prior ! j)))"
proof -
  let ?s = "fst (sample_nig R key prior)"
  have len: "length (nig_m prior) = D" "length (nig_l prior) = D"
            "length (nig_a prior) = D" "length (nig_b prior) = D"
    using assms by (simp_all add: nig_shape_def)
  have 1: "length (normal_mu ?s) = D" "length (normal_std ?s) = D"
    using len by (simp_all add: sample_nig_def Let_def)
  have std: "normal_std ?s ! j =
      exp (- (rnd_loggamma R key (nig_a prior) j - ln (nig_b prior ! j)) / 2)" if "j < D" for j
    using that len by (simp add: sample_nig_def Let_def field_simps)
  have mu: "normal_mu ?s ! j =
      nig_m prior ! j + rnd_normal R (snd (rnd_split R key)) D j
        * exp ((- ln (nig_l prior ! j)
                 - (rnd_loggamma R key (nig_a prior) j - ln (nig_b prior ! j))) / 2)"
    if "j < D" for j
  proof -
    have "normal_mu ?s ! j =
      nig_m prior ! j + rnd_normal R (snd (rnd_split R key)) D j
        * exp ((- ln (nig_l prior ! j)
                 - (rnd_loggamma R key (nig_a prior) j - ln (nig_b prior ! j))) / 2)"
      unfolding sample_nig_def Let_def fst_conv Normal.simps
      using that len by (simp del: minus_diff_eq diff_minus_eq_add)
    then show ?thesis .
  qed
  have rel: "normal_mu ?s ! j =
      nig_m prior ! j + rnd_normal R (snd (rnd_split R key)) D j
        * (normal_std ?s ! j / sqrt (nig_l prior ! j))"
    if "j < D" for j
  proof -
    have pos: "0 < nig_l prior ! j"
      using that assms(2) len by (simp add: list_all_length)
    define lam where "lam = rnd_loggamma R key (nig_a prior) j - ln (nig_b prior ! j)"
    have "exp ((- ln (nig_l prior ! j) - lam) / 2)
        = exp (- ln (nig_l prior ! j) / 2) * exp (- lam / 2)"
      by (simp add: exp_add[symmetric] diff_divide_distrib)
    also have "\<dots> = exp (- lam / 2) / sqrt (nig_l prior ! j)"
      by (simp only: exp_half_neg_ln[OF pos]) simp
    finally show ?thesis
      using mu[OF that] std[OF that] by (simp add: lam_def)
  qed
  show ?thesis using 1 std mu rel by blast
qed

lemma ln_four: "ln (4 :: real) = 2 * ln 2"
proof -
  have "ln (4 :: real) = ln (2 * 2)" by simp
  also have "\<dots> = ln 2 + ln 2" by (simp only: ln_mult_pos zero_less_numeral)
  finally show ?thesis by simp
qed

lemma exp_neg_ln_two: "exp (- ln (2 :: real)) = 1 / 2"
  by (simp add: exp_minus inverse_eq_divide)

theorem sample_nig_fields_witness:
  "nig_shape 1 \<lparr>nig_m = [0], nig_l = [4], nig_a = [1], nig_b = [1]\<rparr>
   \<and> normal_std (fst (sample_nig
        \<lparr>rnd_split = \<lambda>k. (k, k), rnd_loggamma = \<lambda>k a i. 0, rnd_normal = \<lambda>k n i. 1,
         rnd_dirichlet = \<lambda>k al. al\<rparr> (0 :: nat)
        \<lparr>nig_m = [0], nig_l = [4], nig_a = [1], nig_b = [1]\<rparr>)) ! 0 = 1
   \<and> normal_mu (fst (sample_nig
        \<lparr>rnd_split = \<lambda>k. (k, k), rnd_loggamma = \<lambda>k a i. 0, rnd_normal = \<lambda>k n i. 1,
         rnd_dirichlet = \<lambda>k al. al\<rparr> (0 :: nat)
        \<lparr>nig_m = [0], nig_l = [4], nig_a = [1], nig_b = [1]\<rparr>)) ! 0 = 1 / 2"
  using sample_nig_fields
    [of 1 "\<lparr>nig_m = [0], nig_l = [4], nig_a = [1], nig_b = [1]\<rparr>"
        "\<lparr>rnd_split = \<lambda>k. (k, k), rnd_loggamma = \<lambda>k a i. 0, rnd_normal = \<lambda>k n i. 1,
          rnd_dirichlet = \<lambda>k al. al\<rparr>" "0 :: nat"]
  by (simp add: nig_shape_def)

text \<open>
  With \<open>l = 4\<close>, \<open>m = 0\<close>, \<open>b = 1\<close>, a log-Gamma draw of \<open>0\<close> and a normal draw of
  \<open>1\<close>, the sampler returns \<open>std = 1\<close> and \<open>mu = 1/2\<close>, where \<open>exp (log \<sigma> / 2)\<close> is
  \<open>1/2\<close> and \<open>m + std z\<close> with the returned \<open>std\<close> is \<open>1\<close>.
\<close>

theorem sample_nig_std_counterexample:
  "fst (sample_nig
        \<lparr>rnd_split = \<lambda>k. (k, k), rnd_loggamma = \<lambda>k a i. 0, rnd_normal = \<lambda>k n i. 1,
         rnd_dirichlet = \<lambda>k al. al\<rparr> (0 :: nat)
        \<lparr>nig_m = [0], nig_l = [4], nig_a = [1], nig_b = [1]\<rparr>)
     = \<lparr>normal_mu = [1 / 2], normal_std = [1]\<rparr>
   \<and> map (\<lambda>v. exp (v / 2)) (vsub (map (\<lambda>v. - ln v) [4]) (vsub [0] (map ln [1]))) = [1 / 2]
   \<and> vadd [0] (vmul [1] [1 :: real]) = [1]"
  by (simp add: sample_nig_def vadd_def vsub_def vmul_def ln_four exp_neg_ln_two)

section \<open>Per-cluster aggregation is grouping\<close>

text \<open>
  The scatter-add leaves the number of segments unchanged, and segment \<open>k\<close> receives, in
  order, exactly the entries whose id is \<open>k\<close>.
\<close>

lemma scatter_length:
  "length (foldl (\<lambda>out (v, s).
              if 0 \<le> s \<and> s < int K then out[nat s := add (out ! nat s) v] else out) acc ps)
     = length acc"
  by (induction ps arbitrary: acc) (simp_all add: split_beta)

lemma scatter_nth:
  assumes "length acc = K" "k < K"
  shows "foldl (\<lambda>out (v, s).
              if 0 \<le> s \<and> s < int K then out[nat s := add (out ! nat s) v] else out) acc ps ! k
     = foldl add (acc ! k) (map fst (filter (\<lambda>(v, s). s = int k) ps))"
  using assms
proof (induction ps arbitrary: acc)
  case Nil
  then show ?case by simp
next
  case (Cons p ps)
  let ?f = "\<lambda>out (v, s).
              if 0 \<le> s \<and> s < int K then out[nat s := add (out ! nat s) v] else out"
  obtain v s where p: "p = (v, s)" by (cases p)
  have unfold: "foldl ?f acc (p # ps) = foldl ?f (?f acc p) ps" by simp
  show ?case
  proof (cases "0 \<le> s \<and> s < int K")
    case True
    then have step: "?f acc p = acc[nat s := add (acc ! nat s) v]"
      by (simp add: p)
    have len: "length (acc[nat s := add (acc ! nat s) v]) = K"
      using Cons.prems by simp
    have IH: "foldl ?f (acc[nat s := add (acc ! nat s) v]) ps ! k
        = foldl add (acc[nat s := add (acc ! nat s) v] ! k)
            (map fst (filter (\<lambda>(v, s). s = int k) ps))"
      by (rule Cons.IH[OF len Cons.prems(2)])
    show ?thesis
    proof (cases "s = int k")
      case True
      then have "acc[nat s := add (acc ! nat s) v] ! k = add (acc ! k) v"
        using Cons.prems by simp
      then show ?thesis
        unfolding unfold step IH using True by (simp add: p)
    next
      case False
      then have "nat s \<noteq> k" using True by auto
      then have "acc[nat s := add (acc ! nat s) v] ! k = acc ! k"
        by simp
      then show ?thesis
        unfolding unfold step IH using False by (simp add: p)
    qed
  next
    case False
    then have step: "?f acc p = acc"
      by (auto simp: p)
    have "s \<noteq> int k" using False Cons.prems by auto
    then show ?thesis
      unfolding unfold step Cons.IH[OF Cons.prems] by (simp add: p)
  qed
qed

lemma segment_sum_length: "length (segment_sum zero add data segment_ids K) = K"
  by (simp add: segment_sum_def scatter_length)

lemma segment_sum_nth:
  "k < K \<Longrightarrow> segment_sum zero add data segment_ids K ! k
     = foldl add zero (map fst (filter (\<lambda>(v, s). s = int k) (zip data segment_ids)))"
  by (simp add: segment_sum_def scatter_nth)

lemma segment_sum_empty:
  assumes "k < K" "int k \<notin> set segment_ids"
  shows "segment_sum zero add data segment_ids K ! k = zero"
proof -
  have "filter (\<lambda>(v, s). s = int k) (zip data segment_ids) = []"
    using assms(2) by (auto simp: filter_empty_conv dest: set_zip_rightD)
  then show ?thesis using assms(1) by (simp add: segment_sum_nth)
qed

lemma filter_zip_map:
  "map fst (filter (\<lambda>(v, s). P s) (zip (map f xs) c))
     = map f (map fst (filter (\<lambda>(v, s). P s) (zip xs c)))"
proof (induction xs arbitrary: c)
  case Nil
  then show ?case by simp
next
  case (Cons a xs)
  then show ?case by (cases c) simp_all
qed

lemma length_filter_zip:
  "length xs = length c \<Longrightarrow>
     length (filter (\<lambda>(v, s). P s) (zip xs c)) = length (filter P c)"
  by (induction xs c rule: list_induct2) simp_all

lemma foldl_add_ones:
  "list_all (\<lambda>v. v = 1) xs \<Longrightarrow> foldl (+) (a :: int) xs = a + int (length xs)"
  by (induction xs arbitrary: a) simp_all

lemma segment_count:
  assumes "k < K" "length c = n"
  shows "segment_sum 0 (+) (replicate n (1 :: int)) c K ! k = int (length (filter (\<lambda>s. s = int k) c))"
proof -
  let ?sel = "map fst (filter (\<lambda>(v, s). s = int k) (zip (replicate n (1 :: int)) c))"
  have "list_all (\<lambda>v. v = 1) ?sel"
    by (auto simp: list_all_iff dest!: set_zip_leftD)
  then have "foldl (+) 0 ?sel = int (length ?sel)"
    using foldl_add_ones[of ?sel 0] by simp
  also have "length ?sel = length (filter (\<lambda>s. s = int k) c)"
    using assms(2) length_filter_zip[of "replicate n (1 :: int)" c "\<lambda>s. s = int k"] by simp
  finally show ?thesis using assms(1) by (simp add: segment_sum_nth)
qed

lemma length_cluster_rows:
  "length c = length (rows x) \<Longrightarrow>
     length (rows (cluster_rows x c k)) = length (filter (\<lambda>s. s = int k) c)"
  using length_filter_zip[of "rows x" c "\<lambda>s. s = int k"] by (simp add: cluster_rows_def)

lemma num_segments_of_Some: "num_segments_of c (Some (int K)) = Inr K"
  by (simp add: num_segments_of_def)

lemma nig_at_stack: "k < length ps \<Longrightarrow> nig_at (stack_nig ps) k = ps ! k"
  by (simp add: nig_at_def stack_nig_def)

lemma posterior_nig_clusters_entry:
  assumes "length c = length (rows x)"
  shows "\<exists>post. posterior_nig_clusters prior x c (Some (int K)) = Inr post
           \<and> length (nig_m post) = K \<and> length (nig_l post) = K
           \<and> length (nig_a post) = K \<and> length (nig_b post) = K
           \<and> (\<forall>k<K. nig_at post k = posterior_nig_stats prior (int (length (rows (cluster_rows x c k))))
                    (sum_axis0 (cluster_rows x c k))
                    (sum_axis0 (sq_array2 (cluster_rows x c k))))"
proof -
  define N where "N = segment_sum 0 (+) (replicate (length (rows x)) (1 :: int)) c K"
  define sum_x where "sum_x = segment_sum (replicate (ncols x) 0) vadd (rows x) c K"
  define sum_x_sq where
    "sum_x_sq = segment_sum (replicate (ncols x) 0) vadd (rows (sq_array2 x)) c K"
  define ps where "ps = map (\<lambda>(n, sx, sxx). posterior_nig_stats prior n sx sxx)
                          (zip N (zip sum_x sum_x_sq))"
  have res: "posterior_nig_clusters prior x c (Some (int K)) = Inr (stack_nig ps)"
    by (simp add: posterior_nig_clusters_def num_segments_of_Some Let_def
          N_def sum_x_def sum_x_sq_def ps_def)
  have len: "length N = K" "length sum_x = K" "length sum_x_sq = K"
    by (simp_all add: N_def sum_x_def sum_x_sq_def segment_sum_length)
  then have lps: "length ps = K" by (simp add: ps_def)
  have entry: "nig_at (stack_nig ps) k = posterior_nig_stats prior (int (length (rows (cluster_rows x c k))))
                    (sum_axis0 (cluster_rows x c k))
                    (sum_axis0 (sq_array2 (cluster_rows x c k)))"
    if k: "k < K" for k
  proof -
    have n: "N ! k = int (length (rows (cluster_rows x c k)))"
      using k assms by (simp add: N_def segment_count length_cluster_rows)
    have sx: "sum_x ! k = sum_axis0 (cluster_rows x c k)"
      using k by (simp add: sum_x_def segment_sum_nth sum_axis0_def cluster_rows_def)
    have "sum_x_sq ! k = foldl vadd (replicate (ncols x) 0)
            (map vsq (map fst (filter (\<lambda>(v, s). s = int k) (zip (rows x) c))))"
      using k filter_zip_map[of "\<lambda>s. s = int k" vsq "rows x" c]
      by (simp add: sum_x_sq_def segment_sum_nth sq_array2_def)
    then have sxx: "sum_x_sq ! k = sum_axis0 (sq_array2 (cluster_rows x c k))"
      by (simp add: sum_axis0_def sq_array2_def cluster_rows_def)
    have "ps ! k = posterior_nig_stats prior (N ! k) (sum_x ! k) (sum_x_sq ! k)"
      using k len by (simp add: ps_def)
    then show ?thesis
      using k lps by (simp add: nig_at_stack n sx sxx)
  qed
  have "length (nig_m (stack_nig ps)) = K" "length (nig_l (stack_nig ps)) = K"
       "length (nig_a (stack_nig ps)) = K" "length (nig_b (stack_nig ps)) = K"
    using lps by (simp_all add: stack_nig_def)
  then show ?thesis using res entry by blast
qed

text \<open>Summing one-hot rows counts the categories.\<close>

lemma one_hot_length [simp]: "length (one_hot k v) = k"
  by (simp add: one_hot_def)

lemma one_hot_nth: "j < k \<Longrightarrow> one_hot k v ! j = (if v = int j then 1 else 0)"
  by (simp add: one_hot_def)

lemma madd_one_hot_shape:
  assumes "length acc = D" "list_all (\<lambda>row. length row = k) acc" "length r = D"
  shows "length (madd acc (map (one_hot k) r)) = D
       \<and> list_all (\<lambda>row. length row = k) (madd acc (map (one_hot k) r))"
  using assms by (auto simp: madd_def list_all_length)

lemma madd_one_hot_nth:
  assumes "length acc = D" "list_all (\<lambda>row. length row = k) acc" "length r = D" "d < D" "j < k"
  shows "madd acc (map (one_hot k) r) ! d ! j = acc ! d ! j + (if r ! d = int j then 1 else 0)"
  using assms by (simp add: madd_def list_all_length one_hot_nth)

lemma foldl_madd_one_hot:
  assumes "length acc = D" "list_all (\<lambda>row. length row = k) acc"
    and "list_all (\<lambda>r. length r = D) rs"
  shows "length (foldl madd acc (map (map (one_hot k)) rs)) = D
       \<and> list_all (\<lambda>row. length row = k) (foldl madd acc (map (map (one_hot k)) rs))
       \<and> (\<forall>d<D. \<forall>j<k. foldl madd acc (map (map (one_hot k)) rs) ! d ! j
             = acc ! d ! j + int (length (filter (\<lambda>r. r ! d = int j) rs)))"
  using assms
proof (induction rs arbitrary: acc)
  case Nil
  then show ?case by simp
next
  case (Cons r rs)
  have r: "length r = D" and rs: "list_all (\<lambda>r. length r = D) rs"
    using Cons.prems(3) by simp_all
  let ?acc = "madd acc (map (one_hot k) r)"
  have shape: "length ?acc = D" "list_all (\<lambda>row. length row = k) ?acc"
    using madd_one_hot_shape[OF Cons.prems(1,2) r] by simp_all
  note IH = Cons.IH[OF shape rs]
  have "foldl madd acc (map (map (one_hot k)) (r # rs)) ! d ! j
           = acc ! d ! j + int (length (filter (\<lambda>r. r ! d = int j) (r # rs)))"
    if "d < D" "j < k" for d j
    using IH that madd_one_hot_nth[OF Cons.prems(1,2) r that] by simp
  then show ?case using IH by simp
qed

lemma foldl_madd_counts:
  assumes "wf_array2 x"
  shows "foldl madd (replicate (ncols x) (replicate k 0)) (map (map (one_hot k)) (rows x))
           = category_counts k x"
proof -
  let ?lhs = "foldl madd (replicate (ncols x) (replicate k 0)) (map (map (one_hot k)) (rows x))"
  have f: "length ?lhs = ncols x" "list_all (\<lambda>row. length row = k) ?lhs"
    "\<And>d j. d < ncols x \<Longrightarrow> j < k \<Longrightarrow>
       ?lhs ! d ! j = int (length (filter (\<lambda>r. r ! d = int j) (rows x)))"
    using foldl_madd_one_hot[of "replicate (ncols x) (replicate k 0)" "ncols x" k "rows x"] assms
    by (simp_all add: wf_array2_def list_all_length)
  show ?thesis
  proof (rule nth_equalityI)
    show "length ?lhs = length (category_counts k x)"
      using f(1) by (simp add: category_counts_def)
    fix d assume "d < length ?lhs"
    then have d: "d < ncols x" using f(1) by simp
    show "?lhs ! d = category_counts k x ! d"
    proof (rule nth_equalityI)
      show "length (?lhs ! d) = length (category_counts k x ! d)"
        using f(1,2) d by (simp add: category_counts_def list_all_length)
      fix j assume "j < length (?lhs ! d)"
      then have "j < k" using f(1,2) d by (simp add: list_all_length)
      then show "?lhs ! d ! j = category_counts k x ! d ! j"
        using f(3)[OF d] d by (simp add: category_counts_def)
    qed
  qed
qed

lemma wf_cluster_rows: "wf_array2 x \<Longrightarrow> wf_array2 (cluster_rows x c k)"
  by (auto simp: wf_array2_def cluster_rows_def list_all_iff dest!: set_zip_leftD)

lemma posterior_dirichlet_clusters_entry:
  assumes "wf_array2 x"
  shows "\<exists>post. posterior_dirichlet_clusters prior x c (Some (int K)) = Inr post
           \<and> length (dir_alpha post) = K
           \<and> (\<forall>k<K. dir_alpha post ! k =
                 dir_alpha (posterior_dirichlet_counts prior
                   (category_counts (last_dim (dir_alpha prior)) (cluster_rows x c k))))"
proof -
  define kc where "kc = last_dim (dir_alpha prior)"
  define counts where
    "counts = segment_sum (replicate (ncols x) (replicate kc 0)) madd
                (map (map (one_hot kc)) (rows x)) c K"
  define post where
    "post = \<lparr>dir_alpha = map (\<lambda>cnt. dir_alpha (posterior_dirichlet_counts prior cnt)) counts\<rparr>"
  have res: "posterior_dirichlet_clusters prior x c (Some (int K)) = Inr post"
    by (simp add: posterior_dirichlet_clusters_def num_segments_of_Some Let_def
          kc_def counts_def post_def)
  have len: "length counts = K"
    by (simp add: counts_def segment_sum_length)
  have "counts ! k = category_counts kc (cluster_rows x c k)" if k: "k < K" for k
  proof -
    have "counts ! k = foldl madd (replicate (ncols x) (replicate kc 0))
            (map (map (one_hot kc)) (rows (cluster_rows x c k)))"
      using k filter_zip_map[of "\<lambda>s. s = int k" "map (one_hot kc)" "rows x" c]
      by (simp add: counts_def segment_sum_nth cluster_rows_def)
    also have "\<dots> = category_counts kc (cluster_rows x c k)"
      using foldl_madd_counts[where x = "cluster_rows x c k" and k = kc,
              OF wf_cluster_rows[OF assms]]
      by (simp add: cluster_rows_def)
    finally show ?thesis .
  qed
  then have "\<forall>k<K. dir_alpha post ! k =
      dir_alpha (posterior_dirichlet_counts prior (category_counts kc (cluster_rows x c k)))"
    using len by (simp add: post_def)
  moreover have "length (dir_alpha post) = K"
    using len by (simp add: post_def)
  ultimately show ?thesis using res unfolding kc_def by blast
qed

text \<open>
  Claim C2. With labels in \<open>[0, K)\<close> and \<open>max_clusters = K\<close>, the per-cluster update
  of a Normal-Inverse-Gamma and of a Dirichlet prior succeeds, its result has leading
  dimension exactly \<open>K\<close>, and its entry \<open>k\<close> is the single-cluster update applied to
  the observations whose label is \<open>k\<close>: for the Normal-Inverse-Gamma the update from
  their count, sum and sum of squares, for the Dirichlet the update from their category
  counts. A cluster with no observation has count 0, zero sums and zero one-hot counts.
\<close>

theorem posterior_clusters_per_group:
  assumes "length c = length (rows x)" "length c = length (rows xi)" "wf_array2 xi"
    and "list_all (\<lambda>s. 0 \<le> s \<and> s < int K) c"
  shows "(\<exists>post. posterior_nig_clusters prior x c (Some (int K)) = Inr post
            \<and> length (nig_m post) = K \<and> length (nig_l post) = K
            \<and> length (nig_a post) = K \<and> length (nig_b post) = K
            \<and> (\<forall>k<K. nig_at post k = posterior_nig_stats prior (int (length (rows (cluster_rows x c k))))
                    (sum_axis0 (cluster_rows x c k))
                    (sum_axis0 (sq_array2 (cluster_rows x c k)))))
       \<and> (\<exists>post. posterior_dirichlet_clusters dprior xi c (Some (int K)) = Inr post
            \<and> length (dir_alpha post) = K
            \<and> (\<forall>k<K. dir_alpha post ! k =
                  dir_alpha (posterior_dirichlet_counts dprior
                    (category_counts (last_dim (dir_alpha dprior)) (cluster_rows xi c k)))))
       \<and> (\<forall>k<K. int k \<notin> set c \<longrightarrow>
              segment_sum 0 (+) (replicate (length (rows x)) (1 :: int)) c K ! k = 0
            \<and> segment_sum (replicate (ncols x) 0) vadd (rows x) c K ! k = replicate (ncols x) 0
            \<and> segment_sum (replicate (ncols x) 0) vadd (rows (sq_array2 x)) c K ! k
                = replicate (ncols x) 0
            \<and> segment_sum (replicate (ncols xi) (replicate (last_dim (dir_alpha dprior)) 0)) madd
                (map (map (one_hot (last_dim (dir_alpha dprior)))) (rows xi)) c K ! k
                = replicate (ncols xi) (replicate (last_dim (dir_alpha dprior)) 0))"
proof -
  note nig = posterior_nig_clusters_entry[OF assms(1), of prior K]
  note dir = posterior_dirichlet_clusters_entry[OF assms(3), of dprior c K]
  have empty: "segment_sum zero add data c K ! k = zero" if "k < K" "int k \<notin> set c"
    for k and zero :: 'z and add data
    using that by (rule segment_sum_empty)
  show ?thesis
    using nig dir by (simp add: empty)
qed

theorem posterior_clusters_per_group_witness:
  "posterior_nig_clusters \<lparr>nig_m = [0], nig_l = [1], nig_a = [1], nig_b = [1]\<rparr>
      \<lparr>ncols = 1, rows = [[1], [3], [5]]\<rparr> [0, 2, 0] (Some 3)
     = Inr \<lparr>nig_m = [[2], [0], [3 / 2]], nig_l = [[3], [1], [2]],
            nig_a = [[2], [1], [3 / 2]], nig_b = [[8], [1], [13 / 4]]\<rparr>
   \<and> posterior_dirichlet_clusters \<lparr>dir_alpha = [[1, 1]]\<rparr>
      \<lparr>ncols = 1, rows = [[0], [1], [0]]\<rparr> [0, 2, 0] (Some 3)
     = Inr \<lparr>dir_alpha = [[[3, 1]], [[1, 1]], [[1, 2]]]\<rparr>"
  using posterior_clusters_per_group
    [of "[0, 2, 0]" "\<lparr>ncols = 1, rows = [[1], [3], [5]]\<rparr>"
        "\<lparr>ncols = 1, rows = [[0], [1], [0]]\<rparr>" 3
        "\<lparr>nig_m = [0], nig_l = [1], nig_a = [1], nig_b = [1]\<rparr>"
        "\<lparr>dir_alpha = [[1, 1]]\<rparr>"]
  by (simp add: posterior_nig_clusters_def posterior_dirichlet_clusters_def num_segments_of_def
        segment_sum_def stack_nig_def posterior_nig_stats_def posterior_dirichlet_counts_def
        sq_array2_def vadd_def vsub_def vmul_def vdiv_def vsq_def madd_def one_hot_def last_dim_def
        numeral_3_eq_3 numeral_2_eq_2 power2_eq_square upt_conv_Cons Let_def
        del: upt_Suc)

section \<open>Empty clusters keep the prior\<close>

lemma cluster_rows_empty:
  "int k \<notin> set c \<Longrightarrow> cluster_rows x c k = \<lparr>ncols = ncols x, rows = []\<rparr>"
  by (auto simp: cluster_rows_def filter_empty_conv dest: set_zip_rightD)

lemma statistics_empty:
  "int (length (rows \<lparr>ncols = D, rows = []\<rparr>)) = 0
   \<and> sum_axis0 \<lparr>ncols = D, rows = []\<rparr> = replicate D 0
   \<and> sum_axis0 (sq_array2 \<lparr>ncols = D, rows = []\<rparr>) = replicate D 0"
  by (simp add: sum_axis0_def sq_array2_def)

text \<open>
  Claim C10. For a prior with \<open>l > 0\<close> in every dimension, the statistics-form update
  at \<open>N = 0\<close>, \<open>\<Sigma>x = 0\<close>, \<open>\<Sigma>x\<^sup>2 = 0\<close> returns the prior: all of \<open>m\<close>, \<open>l\<close>, \<open>a\<close>,
  \<open>b\<close> are unchanged. Hence the per-cluster update of a batch of the prior's dimension
  has the prior itself at every cluster that no label names.
\<close>

theorem posterior_nig_stats_zero_identity:
  assumes "nig_shape D prior" "\<forall>v\<in>set (nig_l prior). 0 < v"
  shows "posterior_nig_stats prior 0 (replicate D 0) (replicate D 0) = prior
       \<and> (ncols x = D \<and> length c = length (rows x) \<and> k < K \<and> int k \<notin> set c \<longrightarrow>
            (\<exists>post. posterior_nig_clusters prior x c (Some (int K)) = Inr post
               \<and> nig_at post k = prior))"
proof -
  have zero: "posterior_nig_stats prior 0 (replicate D 0) (replicate D 0) = prior"
    using assms by (rule posterior_nig_stats_zero)
  have "\<exists>post. posterior_nig_clusters prior x c (Some (int K)) = Inr post \<and> nig_at post k = prior"
    if h: "ncols x = D" "length c = length (rows x)" "k < K" "int k \<notin> set c"
  proof -
    obtain post where post: "posterior_nig_clusters prior x c (Some (int K)) = Inr post"
      and entry: "\<forall>k<K. nig_at post k = posterior_nig_stats prior (int (length (rows (cluster_rows x c k))))
                    (sum_axis0 (cluster_rows x c k))
                    (sum_axis0 (sq_array2 (cluster_rows x c k)))"
      using posterior_nig_clusters_entry[OF h(2), of prior K] by blast
    have "nig_at post k = posterior_nig_stats prior 0 (replicate D 0) (replicate D 0)"
      using entry h(1,3) cluster_rows_empty[OF h(4), of x] statistics_empty[of D] by simp
    then have "nig_at post k = prior"
      by (simp only: zero)
    then show ?thesis using post by blast
  qed
  then show ?thesis using zero by blast
qed

theorem posterior_nig_stats_zero_identity_witness:
  "nig_shape 2 \<lparr>nig_m = [1, -2], nig_l = [2, 1 / 2], nig_a = [1, 3], nig_b = [1, 4]\<rparr>
   \<and> posterior_nig_stats \<lparr>nig_m = [1, -2], nig_l = [2, 1 / 2], nig_a = [1, 3], nig_b = [1, 4]\<rparr>
         0 [0, 0] [0, 0]
       = \<lparr>nig_m = [1, -2], nig_l = [2, 1 / 2], nig_a = [1, 3], nig_b = [1, 4]\<rparr>
   \<and> (\<exists>post. posterior_nig_clusters
          \<lparr>nig_m = [1, -2], nig_l = [2, 1 / 2], nig_a = [1, 3], nig_b = [1, 4]\<rparr>
          \<lparr>ncols = 2, rows = [[1, 1], [2, 5]]\<rparr> [0, 2] (Some 3) = Inr post
        \<and> nig_at post 1 = \<lparr>nig_m = [1, -2], nig_l = [2, 1 / 2], nig_a = [1, 3], nig_b = [1, 4]\<rparr>)"
  using posterior_nig_stats_zero_identity
    [of 2 "\<lparr>nig_m = [1, -2], nig_l = [2, 1 / 2], nig_a = [1, 3], nig_b = [1, 4]\<rparr>"
        "\<lparr>ncols = 2, rows = [[1, 1], [2, 5]]\<rparr>" "[0, 2]" 1 3]
  by (simp add: nig_shape_def numeral_2_eq_2)

end
